theory Spec2Isabelle
  imports Main
begin

section \<open>ZenMonitor: the monitoring engine\<close>

text \<open>
  A shallow embedding of the Go packages \<^verbatim>\<open>config\<close> (loader.go), \<^verbatim>\<open>monitor\<close>
  (the engine) and \<^verbatim>\<open>notifier\<close> (notifier.go). Everything outside the process is a
  parameter: the network, the clock, the file system, the YAML decoder and the
  standard library's \<^verbatim>\<open>time.ParseDuration\<close>.
\<close>

subsection \<open>Go values\<close>

text \<open>
  \<^verbatim>\<open>time.Duration\<close> is a signed count of nanoseconds; \<^verbatim>\<open>time.Time\<close> is an
  instant. The engine only stores, compares and passes them on.
\<close>

type_synonym duration = int
type_synonym time = int

definition Second :: duration where
  "Second = 1000000000"

text \<open>
  A Go \<^verbatim>\<open>error\<close> value. \<^verbatim>\<open>Errorf\<close> is an error built by \<^verbatim>\<open>fmt.Errorf\<close>
  in this repository, with its text; \<^verbatim>\<open>LibError\<close> is an error handed back by the
  standard library or a driver (\<^verbatim>\<open>*url.Error\<close>, \<^verbatim>\<open>*net.OpError\<close>, an I/O or SQL
  error), with the text its \<^verbatim>\<open>Error()\<close> method renders. \<^verbatim>\<open>nil\<close> is \<open>None\<close>
  of \<open>go_error option\<close>. The parameters that stand for library calls return the
  text of the library's error; the model wraps it in \<^verbatim>\<open>LibError\<close>.
\<close>

datatype go_error = Errorf string | LibError string

fun Error_text :: "go_error \<Rightarrow> string" where
  "Error_text (Errorf s) = s"
| "Error_text (LibError s) = s"

text \<open>The verb \<^verbatim>\<open>%d\<close> of \<^verbatim>\<open>fmt\<close>: a signed decimal numeral.\<close>

definition digit_char :: "nat \<Rightarrow> char" where
  "digit_char n = ''0123456789'' ! (n mod 10)"

function fmt_nat :: "nat \<Rightarrow> string" where
  "fmt_nat n = (if n < 10 then [digit_char n] else fmt_nat (n div 10) @ [digit_char n])"
  by pat_completeness auto
termination
  by (relation "measure id") auto

declare fmt_nat.simps [simp del]

definition fmt_d :: "int \<Rightarrow> string" where
  "fmt_d i = (if i < 0 then CHR ''-'' # fmt_nat (nat (- i)) else fmt_nat (nat i))"

subsection \<open>Package config (loader.go)\<close>

record GlobalConfig =
  CheckInterval :: string
  HistoryDays :: int

record MonitorConfig =
  Name :: string
  Type :: string
  URL :: string
  Host :: string
  Port :: int
  Method :: string
  ExpectStatus :: int
  Interval :: string

text \<open>
  \<^verbatim>\<open>Config.Notifications\<close> is read by \<^verbatim>\<open>notifier.NewService\<close> only; neither the
  loader's defaulting nor the engine looks at it, and it is left out of the record.
\<close>

record Config =
  Global :: GlobalConfig
  Monitors :: "MonitorConfig list"

text \<open>
  The body of the \<^verbatim>\<open>for i := range cfg.Monitors\<close> loop of \<^verbatim>\<open>LoadConfig\<close>:
  the type is inferred when it is empty, then method and expected status get their
  defaults. A monitor with no type, URL or host keeps the empty type.
\<close>

definition monitor_defaults :: "MonitorConfig \<Rightarrow> MonitorConfig" where
  "monitor_defaults m0 =
     (let m1 = (if Type m0 = [] then
                  (if URL m0 \<noteq> [] then m0\<lparr>Type := ''http''\<rparr>
                   else if Host m0 \<noteq> [] \<and> Port m0 \<noteq> 0 then m0\<lparr>Type := ''tcp''\<rparr>
                   else if Host m0 \<noteq> [] then m0\<lparr>Type := ''icmp''\<rparr>
                   else m0)
                else m0);
          m2 = (if Method m1 = [] then m1\<lparr>Method := ''GET''\<rparr> else m1);
          m3 = (if ExpectStatus m2 = 0 then m2\<lparr>ExpectStatus := 200\<rparr> else m2)
      in m3)"

definition global_defaults :: "GlobalConfig \<Rightarrow> GlobalConfig" where
  "global_defaults g0 =
     (let g1 = (if CheckInterval g0 = [] then g0\<lparr>CheckInterval := ''60s''\<rparr> else g0);
          g2 = (if HistoryDays g1 = 0 then g1\<lparr>HistoryDays := 90\<rparr> else g1)
      in g2)"

text \<open>
  \<^verbatim>\<open>LoadConfig\<close>, with \<^verbatim>\<open>os.ReadFile\<close> and \<^verbatim>\<open>yaml.Unmarshal\<close> as parameters.
  The two early returns wrap the library's error with \<^verbatim>\<open>%w\<close>.
\<close>

definition LoadConfig ::
  "(string \<Rightarrow> string + string) \<Rightarrow> (string \<Rightarrow> string + Config) \<Rightarrow> string \<Rightarrow> go_error + Config"
where
  "LoadConfig ReadFile Unmarshal path =
     (case ReadFile path of
        Inl err \<Rightarrow> Inl (Errorf (''failed to read config file: '' @ Error_text (LibError err)))
      | Inr data \<Rightarrow>
          (case Unmarshal data of
             Inl err \<Rightarrow> Inl (Errorf (''failed to parse yaml: '' @ Error_text (LibError err)))
           | Inr cfg \<Rightarrow>
               Inr (cfg\<lparr>Global := global_defaults (Global cfg),
                        Monitors := map monitor_defaults (Monitors cfg)\<rparr>)))"

text \<open>
  \<^verbatim>\<open>ParseDuration\<close> of loader.go. Its parameter \<open>parse\<close> is the standard
  library's \<^verbatim>\<open>time.ParseDuration\<close>: \<open>None\<close> when that returns an error, the
  duration otherwise.
\<close>

definition ParseDuration :: "(string \<Rightarrow> duration option) \<Rightarrow> string \<Rightarrow> duration" where
  "ParseDuration parse d =
     (case parse d of
        None \<Rightarrow> 60 * Second
      | Some dur \<Rightarrow> dur)"

subsection \<open>Package notifier (notifier.go)\<close>

datatype Sender = TelegramSender string string | SlackSender string

record Service =
  Senders :: "Sender list"

text \<open>
  The two emoji of \<^verbatim>\<open>Notify\<close> as their UTF-8 bytes: U+1F534 (red circle) and
  U+1F7E2 (green circle).
\<close>

definition emoji_down :: string where
  "emoji_down = [CHR 0xF0, CHR 0x9F, CHR 0x94, CHR 0xB4]"

definition emoji_up :: string where
  "emoji_up = [CHR 0xF0, CHR 0x9F, CHR 0x9F, CHR 0xA2]"

text \<open>
  \<^verbatim>\<open>postJSON\<close>, with \<^verbatim>\<open>http.Post\<close> as the parameter \<open>post\<close> (an error, or the
  response's status code). The payload is a \<^verbatim>\<open>map[string]string\<close>, which
  \<^verbatim>\<open>json.Marshal\<close> never rejects; it is passed on as an association list.
\<close>

definition postJSON ::
  "(string \<Rightarrow> (string \<times> string) list \<Rightarrow> string + int) \<Rightarrow> string \<Rightarrow> (string \<times> string) list
     \<Rightarrow> go_error option"
where
  "postJSON post url v =
     (case post url v of
        Inl err \<Rightarrow> Some (LibError err)
      | Inr code \<Rightarrow>
          if code \<ge> 300 then Some (Errorf (''api request failed with status: '' @ fmt_d code))
          else None)"

fun Send ::
  "(string \<Rightarrow> (string \<times> string) list \<Rightarrow> string + int) \<Rightarrow> Sender \<Rightarrow> string \<Rightarrow> go_error option"
where
  "Send post (TelegramSender token chat_id) message =
     postJSON post (''https://api.telegram.org/bot'' @ token @ ''/sendMessage'')
       [(''chat_id'', chat_id), (''text'', message), (''parse_mode'', ''Markdown'')]"
| "Send post (SlackSender webhook_url) message =
     postJSON post webhook_url [(''text'', message)]"

subsection \<open>Package monitor\<close>

record CheckResult =
  MonitorName :: string
  Timestamp :: time
  Status :: bool
  Latency :: duration
  Error :: string

text \<open>
  The world one check runs in. \<open>http_do timeout method url\<close> is one request of an
  \<^verbatim>\<open>http.Client\<close> with that timeout: an error, or the response's status code.
  \<open>tcp_dial network address timeout\<close> is \<^verbatim>\<open>net.DialTimeout\<close>: an error, or
  \<open>None\<close> when the connection was made. \<open>http_post\<close> is \<^verbatim>\<open>http.Post\<close> as the
  notifier's goroutines see it. \<open>clock_now\<close> is what \<^verbatim>\<open>time.Now()\<close> returns when the
  check starts, \<open>clock_since\<close> what \<^verbatim>\<open>time.Since(start)\<close> returns after the probe,
  and \<open>now_rfc1123\<close> is \<^verbatim>\<open>time.Now().Format(time.RFC1123)\<close> inside \<^verbatim>\<open>Notify\<close>.
\<close>

record world =
  http_do :: "duration \<Rightarrow> string \<Rightarrow> string \<Rightarrow> string + int"
  tcp_dial :: "string \<Rightarrow> string \<Rightarrow> duration \<Rightarrow> string option"
  http_post :: "string \<Rightarrow> (string \<times> string) list \<Rightarrow> string + int"
  clock_now :: time
  clock_since :: duration
  now_rfc1123 :: string

text \<open>
  What a monitor does to the outside, in the order it does it. A check makes a call
  of \<^verbatim>\<open>Store.LogCheck\<close> with the error it returned, the locked read and write of
  \<^verbatim>\<open>lastState\<close> (target, entry read, status written), a call of
  \<^verbatim>\<open>Notifier.Notify\<close>, and a goroutine started by \<^verbatim>\<open>Notify\<close> for one sender.
  Before its first check \<^verbatim>\<open>runMonitor\<close> starts its ticker: \<open>TickerStarted d\<close> is
  the call \<^verbatim>\<open>time.NewTicker(d)\<close> that returned a ticker of period \<open>d\<close>.
\<close>

datatype event =
    LogCheck CheckResult "go_error option"
  | StateUpdate string "bool option" bool
  | NotifyCall string bool bool
  | GoSend Sender string
  | TickerStarted duration

text \<open>
  \<^verbatim>\<open>Service.Notify\<close>: the message is built once, then every sender gets a goroutine
  of its own. The call returns the goroutines it started; it returns no value to its
  caller and reads no result of a \<^verbatim>\<open>Send\<close>.
\<close>

definition Notify :: "world \<Rightarrow> Service \<Rightarrow> string \<Rightarrow> bool \<Rightarrow> bool \<Rightarrow> event list" where
  "Notify w s monitorName isUp wasUp =
     (let status = (if isUp then ''UP'' else ''DOWN'');
          emoji = (if isUp then emoji_up else emoji_down);
          msg = emoji @ '' Monitor *'' @ monitorName @ ''* is '' @ status @ '' at '' @ now_rfc1123 w
      in map (\<lambda>sender. GoSend sender msg) (Senders s))"

text \<open>
  The body of a goroutine started by \<^verbatim>\<open>Notify\<close>: \<^verbatim>\<open>_ = snd.Send(msg)\<close>. What
  \<^verbatim>\<open>Send\<close> returned is dropped there; \<open>goroutine_result\<close> names it.
\<close>

fun goroutine_result :: "world \<Rightarrow> event \<Rightarrow> go_error option" where
  "goroutine_result w (GoSend sender msg) = Send (http_post w) sender msg"
| "goroutine_result w _ = None"

text \<open>
  The \<^verbatim>\<open>Store\<close> interface has one method, \<^verbatim>\<open>LogCheck\<close>; a store is what that
  method returns for a result. A nil \<^verbatim>\<open>Store\<close> or \<^verbatim>\<open>Notifier\<close> is \<open>None\<close>.
  \<^verbatim>\<open>stopCh\<close> is a channel nothing is ever sent on: it is open or closed.
\<close>

type_synonym Store = "CheckResult \<Rightarrow> go_error option"

datatype chan = Open | Closed

record Engine =
  Cfg :: Config
  Store :: "Store option"
  Notifier :: "Service option"
  lastState :: "string \<rightharpoonup> bool"
  stopCh :: chan

definition NewEngine :: "Config \<Rightarrow> Store option \<Rightarrow> Service option \<Rightarrow> Engine" where
  "NewEngine cfg store notifier =
     \<lparr>Cfg = cfg, Store = store, Notifier = notifier, lastState = Map.empty, stopCh = Open\<rparr>"

text \<open>\<^verbatim>\<open>Stop\<close> closes the channel; closing a closed channel panics in Go.\<close>

definition Stop :: "Engine \<Rightarrow> string + Engine" where
  "Stop e =
     (case stopCh e of
        Open \<Rightarrow> Inr (e\<lparr>stopCh := Closed\<rparr>)
      | Closed \<Rightarrow> Inl ''close of closed channel'')"

text \<open>The probes. \<^verbatim>\<open>client.Get\<close> is a request with method GET.\<close>

definition checkHTTP :: "world \<Rightarrow> MonitorConfig \<Rightarrow> bool \<times> go_error option" where
  "checkHTTP w m =
     (case http_do w (10 * Second) ''GET'' (URL m) of
        Inl err \<Rightarrow> (False, Some (LibError err))
      | Inr StatusCode \<Rightarrow>
          if StatusCode \<noteq> ExpectStatus m
          then (False, Some (Errorf (''status code '' @ fmt_d StatusCode @ '', expected ''
                                      @ fmt_d (ExpectStatus m))))
          else (True, None))"

definition checkTCP :: "world \<Rightarrow> MonitorConfig \<Rightarrow> bool \<times> go_error option" where
  "checkTCP w m =
     (let target = Host m @ '':'' @ fmt_d (Port m) in
      case tcp_dial w ''tcp'' target (10 * Second) of
        Some err \<Rightarrow> (False, Some (LibError err))
      | None \<Rightarrow> (True, None))"

definition checkICMP :: "MonitorConfig \<Rightarrow> bool \<times> go_error option" where
  "checkICMP m =
     (False, Some (Errorf ''ICMP not yet implemented (requires decision on root vs shell)''))"

text \<open>
  The \<^verbatim>\<open>switch m.Type\<close> of \<^verbatim>\<open>performCheck\<close>. In the last branch \<^verbatim>\<open>success\<close>
  keeps its zero value, false.
\<close>

definition probe :: "world \<Rightarrow> MonitorConfig \<Rightarrow> bool \<times> go_error option" where
  "probe w m =
     (if Type m = ''http'' \<or> Type m = ''https'' then checkHTTP w m
      else if Type m = ''tcp'' then checkTCP w m
      else if Type m = ''icmp'' then checkICMP m
      else if URL m \<noteq> [] then checkHTTP w m
      else (False, Some (Errorf ''unknown monitor type'')))"

text \<open>
  \<^verbatim>\<open>performCheck\<close>: the engine afterwards, the \<^verbatim>\<open>CheckResult\<close> it built, and what
  it did, in order.
\<close>

definition performCheck :: "world \<Rightarrow> Engine \<Rightarrow> MonitorConfig \<Rightarrow> Engine \<times> CheckResult \<times> event list" where
  "performCheck w e m =
     (let start = clock_now w;
          (success, err) = probe w m;
          latency = clock_since w;
          errMsg = (case err of None \<Rightarrow> [] | Some x \<Rightarrow> Error_text x);
          result = \<lparr>MonitorName = Name m, Timestamp = start, Status = success,
                    Latency = latency, Error = errMsg\<rparr>;
          persist = (case Store e of
                       None \<Rightarrow> []
                     | Some store \<Rightarrow> [LogCheck result (store result)]);
          prior = lastState e (Name m);
          e' = e\<lparr>lastState := (lastState e)(Name m \<mapsto> success)\<rparr>;
          alert = (case prior of
                     None \<Rightarrow> []
                   | Some wasUp \<Rightarrow>
                       if wasUp \<noteq> success then
                         (case Notifier e of
                            None \<Rightarrow> []
                          | Some n \<Rightarrow> NotifyCall (Name m) success wasUp
                                       # Notify w n (Name m) success wasUp)
                       else [])
      in (e', result, persist @ [StateUpdate (Name m) prior success] @ alert))"

text \<open>
  The monitor loop. \<^verbatim>\<open>time.NewTicker\<close> panics on an interval that is not positive.
\<close>

definition NewTicker :: "duration \<Rightarrow> string + duration" where
  "NewTicker d = (if d \<le> 0 then Inl ''non-positive interval for NewTicker'' else Inr d)"

definition monitor_interval :: "(string \<Rightarrow> duration option) \<Rightarrow> Engine \<Rightarrow> MonitorConfig \<Rightarrow> duration" where
  "monitor_interval parse e m =
     (let interval = ParseDuration parse (CheckInterval (Global (Cfg e)));
          interval = (if Interval m \<noteq> [] then ParseDuration parse (Interval m) else interval)
      in interval)"

text \<open>
  One arrival of the monitor's goroutine at the \<^verbatim>\<open>select\<close>: whether a tick waits
  in \<^verbatim>\<open>ticker.C\<close>, the case Go's pseudo-random choice falls on when both cases can
  proceed, and the world of the check that a tick starts. With neither case ready
  the goroutine stays blocked.
\<close>

datatype select_case = CaseStop | CaseTick

record arrival =
  tick_pending :: bool
  pick :: select_case
  tick_world :: world

definition select :: "Engine \<Rightarrow> arrival \<Rightarrow> select_case option" where
  "select e k =
     (if stopCh e = Closed \<and> tick_pending k then Some (pick k)
      else if stopCh e = Closed then Some CaseStop
      else if tick_pending k then Some CaseTick
      else None)"

text \<open>
  A run of one monitor is an interleaving of two kinds of steps: the engine's owner
  calls \<^verbatim>\<open>Stop()\<close>, or the monitor's goroutine arrives at its \<^verbatim>\<open>select\<close>. A probe
  is one step: \<^verbatim>\<open>performCheck\<close> never reads \<^verbatim>\<open>stopCh\<close>, so a \<^verbatim>\<open>Stop()\<close> during a
  probe is a \<^verbatim>\<open>Stop()\<close> before the next arrival.
\<close>

datatype step = CallStop | Arrive arrival

text \<open>
  How a run stands after the steps it was given: the process panicked, the monitor's
  goroutine returned, or it is still in its loop. The results and events are all
  those produced so far, oldest first.
\<close>

datatype outcome =
    Panicked string
  | Returned Engine "CheckResult list" "event list"
  | Looping Engine "CheckResult list" "event list"

fun monitor_loop :: "MonitorConfig \<Rightarrow> step list \<Rightarrow> Engine \<Rightarrow> CheckResult list \<Rightarrow> event list \<Rightarrow> outcome" where
  "monitor_loop m [] e rs evs = Looping e rs evs"
| "monitor_loop m (CallStop # ss) e rs evs =
     (case Stop e of
        Inl msg \<Rightarrow> Panicked msg
      | Inr e' \<Rightarrow> monitor_loop m ss e' rs evs)"
| "monitor_loop m (Arrive k # ss) e rs evs =
     (case select e k of
        None \<Rightarrow> monitor_loop m ss e rs evs
      | Some CaseStop \<Rightarrow> Returned e rs evs
      | Some CaseTick \<Rightarrow>
          (case performCheck (tick_world k) e m of
             (e', r, ev) \<Rightarrow> monitor_loop m ss e' (rs @ [r]) (evs @ ev)))"

definition runMonitor ::
  "(string \<Rightarrow> duration option) \<Rightarrow> world \<Rightarrow> step list \<Rightarrow> Engine \<Rightarrow> MonitorConfig \<Rightarrow> outcome"
where
  "runMonitor parse w0 ss e m =
     (case NewTicker (monitor_interval parse e m) of
        Inl msg \<Rightarrow> Panicked msg
      | Inr ticker \<Rightarrow>
          (case performCheck w0 e m of
             (e', r, ev) \<Rightarrow> monitor_loop m ss e' [r] (TickerStarted ticker # ev)))"

subsection \<open>Reading a trace\<close>

text \<open>The calls of \<^verbatim>\<open>Notifier.Notify\<close> in a trace, with their arguments, in order.\<close>

fun notify_calls :: "event list \<Rightarrow> (string \<times> bool \<times> bool) list" where
  "notify_calls [] = []"
| "notify_calls (NotifyCall name isUp wasUp # evs) = (name, isUp, wasUp) # notify_calls evs"
| "notify_calls (ev # evs) = notify_calls evs"

text \<open>The results an outcome carries; a panic carries none.\<close>

fun results_of :: "outcome \<Rightarrow> CheckResult list" where
  "results_of (Panicked msg) = []"
| "results_of (Returned e rs evs) = rs"
| "results_of (Looping e rs evs) = rs"

text \<open>The events an outcome carries; a panic carries none.\<close>

fun events_of :: "outcome \<Rightarrow> event list" where
  "events_of (Panicked msg) = []"
| "events_of (Returned e rs evs) = evs"
| "events_of (Looping e rs evs) = evs"

text \<open>An arrival at which a tick is pending and the choice falls on it.\<close>

fun tick_wins :: "step \<Rightarrow> bool" where
  "tick_wins CallStop = False"
| "tick_wins (Arrive k) = (tick_pending k \<and> pick k = CaseTick)"

subsection \<open>Example values\<close>

text \<open>
  A world whose HTTP endpoints answer every GET with the given status code and any
  other method with 405, where nothing listens on any TCP port and the notification
  endpoint answers 500.
\<close>

definition example_world :: "int \<Rightarrow> world" where
  "example_world code =
     \<lparr>http_do = (\<lambda>timeout method url. if method = ''GET'' then Inr code else Inr 405),
      tcp_dial = (\<lambda>network address timeout. Some ''dial tcp: connection refused''),
      http_post = (\<lambda>url payload. Inr 500),
      clock_now = 1000, clock_since = 25, now_rfc1123 = ''Mon, 02 Jan 2006 15:04:05 MST''\<rparr>"

definition example_monitor :: MonitorConfig where
  "example_monitor =
     \<lparr>Name = ''svc'', Type = ''http'', URL = ''http://x/health'', Host = [], Port = 0,
      Method = ''POST'', ExpectStatus = 200, Interval = []\<rparr>"

definition example_service :: Service where
  "example_service = \<lparr>Senders = [SlackSender ''https://hooks.example/T0'']\<rparr>"

text \<open>A store whose every write fails.\<close>

definition example_store :: Store where
  "example_store r = Some (LibError ''database is locked'')"

text \<open>An engine that has seen \<^verbatim>\<open>svc\<close> up once.\<close>

definition example_engine :: Engine where
  "example_engine =
     (NewEngine \<lparr>Global = \<lparr>CheckInterval = ''60s'', HistoryDays = 90\<rparr>, Monitors = [example_monitor]\<rparr>
        (Some example_store) (Some example_service))
     \<lparr>lastState := [''svc'' \<mapsto> True]\<rparr>"

text \<open>
  \<^verbatim>\<open>time.ParseDuration\<close> on the four duration strings the examples use; every other
  string of the examples is one it rejects.
\<close>

definition example_parse :: "string \<Rightarrow> duration option" where
  "example_parse = map_of [(''60s'', 60 * Second), (''5s'', 5 * Second), (''0s'', 0),
                           (''-5s'', - 5 * Second)]"

text \<open>
  Two arrivals at the \<^verbatim>\<open>select\<close>: one with a tick pending that the choice falls on,
  one with no tick pending.
\<close>

definition tick_arrival :: step where
  "tick_arrival = Arrive \<lparr>tick_pending = True, pick = CaseTick, tick_world = example_world 200\<rparr>"

definition idle_arrival :: step where
  "idle_arrival = Arrive \<lparr>tick_pending = False, pick = CaseTick, tick_world = example_world 200\<rparr>"

section \<open>Properties\<close>

subsection \<open>Projections of a check\<close>

lemma notify_calls_append: "notify_calls (xs @ ys) = notify_calls xs @ notify_calls ys"
  by (induction xs rule: notify_calls.induct) simp_all

lemma notify_calls_Notify: "notify_calls (Notify w n name isUp wasUp) = []"
proof -
  have "notify_calls (map (\<lambda>sender. GoSend sender msg) xs) = []" for msg xs
    by (induction xs) simp_all
  then show ?thesis by (simp add: Notify_def Let_def)
qed

lemma performCheck_engine:
  "fst (performCheck w e m) = e\<lparr>lastState := (lastState e)(Name m \<mapsto> fst (probe w m))\<rparr>"
  by (simp add: performCheck_def Let_def split: prod.splits)

lemma performCheck_result:
  "fst (snd (performCheck w e m)) =
     \<lparr>MonitorName = Name m, Timestamp = clock_now w, Status = fst (probe w m),
      Latency = clock_since w,
      Error = (case snd (probe w m) of None \<Rightarrow> [] | Some x \<Rightarrow> Error_text x)\<rparr>"
  by (simp add: performCheck_def Let_def split: prod.splits)

lemma performCheck_events:
  assumes "performCheck w e m = (e', r, evs)"
  shows "evs =
     (case Store e of None \<Rightarrow> [] | Some store \<Rightarrow> [LogCheck r (store r)])
     @ [StateUpdate (Name m) (lastState e (Name m)) (Status r)]
     @ (case lastState e (Name m) of None \<Rightarrow> []
        | Some wasUp \<Rightarrow>
            if wasUp \<noteq> Status r then
              (case Notifier e of None \<Rightarrow> []
               | Some n \<Rightarrow> NotifyCall (Name m) (Status r) wasUp
                            # Notify w n (Name m) (Status r) wasUp)
            else [])"
  using assms by (cases "probe w m") (auto simp: performCheck_def Let_def split: option.splits)

text \<open>
  The two nil guards of \<^verbatim>\<open>performCheck\<close>: with no store the trace starts at the
  state update, with no notifier nothing is notified; the state is updated all the
  same.
\<close>

lemma performCheck_nil_Store:
  assumes "performCheck w e m = (e', r, evs)" and "Store e = None"
  shows "evs = StateUpdate (Name m) (lastState e (Name m)) (Status r)
     # (case lastState e (Name m) of None \<Rightarrow> []
        | Some wasUp \<Rightarrow>
            if wasUp \<noteq> Status r then
              (case Notifier e of None \<Rightarrow> []
               | Some n \<Rightarrow> NotifyCall (Name m) (Status r) wasUp
                            # Notify w n (Name m) (Status r) wasUp)
            else [])"
  using performCheck_events [OF assms(1)] by (simp add: assms(2))

lemma performCheck_nil_Notifier:
  assumes "performCheck w e m = (e', r, evs)" and "Notifier e = None"
  shows "notify_calls evs = [] \<and> lastState e' (Name m) = Some (Status r)"
proof -
  have "e' = fst (performCheck w e m)" and "r = fst (snd (performCheck w e m))"
    using assms(1) by simp_all
  then have "lastState e' (Name m) = Some (Status r)"
    by (simp add: performCheck_engine performCheck_result)
  moreover have "notify_calls evs = []"
    using performCheck_events [OF assms(1)]
    by (auto simp: assms(2) notify_calls_append split: option.splits)
  ultimately show ?thesis by blast
qed

lemma performCheck_collapse:
  "performCheck w e m =
     (fst (performCheck w e m), fst (snd (performCheck w e m)), snd (snd (performCheck w e m)))"
  by simp

subsection \<open>The loader's defaults and the probes' results\<close>

lemma monitor_defaults_URL: "URL (monitor_defaults m) = URL m"
  by (simp add: monitor_defaults_def Let_def)

lemma monitor_defaults_ExpectStatus:
  "ExpectStatus (monitor_defaults m) = (if ExpectStatus m = 0 then 200 else ExpectStatus m)"
  by (simp add: monitor_defaults_def Let_def)

lemma monitor_defaults_Method:
  "Method (monitor_defaults m) = (if Method m = [] then ''GET'' else Method m)"
  by (simp add: monitor_defaults_def Let_def)

lemma LoadConfig_Monitors:
  assumes "LoadConfig ReadFile Unmarshal path = Inr cfg"
  shows "\<exists>data cfg0. ReadFile path = Inr data \<and> Unmarshal data = Inr cfg0
           \<and> Monitors cfg = map monitor_defaults (Monitors cfg0)
           \<and> Global cfg = global_defaults (Global cfg0)"
  using assms by (auto simp: LoadConfig_def split: sum.splits)

lemma monitor_defaults_Type_empty:
  "Type (monitor_defaults m) = [] \<longleftrightarrow> Type m = [] \<and> URL m = [] \<and> Host m = []"
  by (auto simp: monitor_defaults_def Let_def)

lemma LoadConfig_ExpectStatus:
  assumes "LoadConfig ReadFile Unmarshal path = Inr cfg" and "m \<in> set (Monitors cfg)"
  shows "ExpectStatus m \<noteq> 0"
proof -
  from LoadConfig_Monitors [OF assms(1)] obtain cfg0 :: Config
    where "Monitors cfg = map monitor_defaults (Monitors cfg0)" by blast
  with assms(2) obtain m0 where "m = monitor_defaults m0" by auto
  then show ?thesis by (simp add: monitor_defaults_ExpectStatus)
qed

lemma checkHTTP_cases:
  "checkHTTP w m = (True, None) \<or> (\<exists>err. checkHTTP w m = (False, Some err))"
  by (simp add: checkHTTP_def split: sum.splits)

lemma checkTCP_cases:
  "checkTCP w m = (True, None) \<or> (\<exists>err. checkTCP w m = (False, Some err))"
  by (simp add: checkTCP_def Let_def split: option.splits)

lemma probe_cases:
  "probe w m = (True, None) \<or> (\<exists>err. probe w m = (False, Some err))"
  using checkHTTP_cases [of w m] checkTCP_cases [of w m]
  by (auto simp: probe_def checkICMP_def)

lemma probe_Errorf_nonempty:
  assumes "snd (probe w m) = Some (Errorf s)"
  shows "s \<noteq> []"
proof -
  have h: "snd (checkHTTP w m) = Some (Errorf s) \<Longrightarrow> s \<noteq> []"
    by (auto simp: checkHTTP_def split: sum.splits if_splits)
  have t: "snd (checkTCP w m) \<noteq> Some (Errorf s)"
    by (simp add: checkTCP_def Let_def split: option.splits)
  from assms h t show ?thesis
    by (auto simp: probe_def checkICMP_def split: if_splits)
qed

subsection \<open>The monitor loop\<close>

lemma performCheck_stopCh: "stopCh (fst (performCheck w e m)) = stopCh e"
  by (simp add: performCheck_engine)

lemma monitor_loop_closed_no_panic:
  assumes "stopCh e = Closed" and "CallStop \<notin> set ss"
  shows "monitor_loop m ss e rs evs \<noteq> Panicked msg"
  using assms
proof (induction ss arbitrary: e rs evs)
  case Nil
  then show ?case by simp
next
  case (Cons s ss)
  show ?case
  proof (cases s)
    case CallStop
    with Cons.prems show ?thesis by simp
  next
    case (Arrive k)
    obtain e' r ev where p: "performCheck (tick_world k) e m = (e', r, ev)"
      by (cases "performCheck (tick_world k) e m") auto
    then have "stopCh e' = Closed"
      using performCheck_stopCh [of "tick_world k" e m] Cons.prems(1) by simp
    with Cons.IH [of e'] Cons.prems(2) have "monitor_loop m ss e' (rs @ [r]) (evs @ ev) \<noteq> Panicked msg"
      by simp
    moreover from Cons.IH [of e] Cons.prems have "monitor_loop m ss e rs evs \<noteq> Panicked msg"
      by simp
    ultimately show ?thesis
      using Arrive p by (simp split: option.splits select_case.splits)
  qed
qed

lemma monitor_loop_open_no_panic:
  assumes "stopCh e = Open" and "length (filter (\<lambda>s. s = CallStop) ss) \<le> 1"
  shows "monitor_loop m ss e rs evs \<noteq> Panicked msg"
  using assms
proof (induction ss arbitrary: e rs evs)
  case Nil
  then show ?case by simp
next
  case (Cons s ss)
  show ?case
  proof (cases s)
    case CallStop
    with Cons.prems have "CallStop \<notin> set ss"
      by (auto simp: filter_empty_conv)
    with monitor_loop_closed_no_panic [of "e\<lparr>stopCh := Closed\<rparr>" ss m rs evs msg]
    show ?thesis using CallStop Cons.prems(1) by (simp add: Stop_def)
  next
    case (Arrive k)
    obtain e' r ev where p: "performCheck (tick_world k) e m = (e', r, ev)"
      by (cases "performCheck (tick_world k) e m") auto
    then have "stopCh e' = Open"
      using performCheck_stopCh [of "tick_world k" e m] Cons.prems(1) by simp
    with Cons.IH [of e'] Cons.prems(2) Arrive
    have "monitor_loop m ss e' (rs @ [r]) (evs @ ev) \<noteq> Panicked msg"
      by simp
    moreover from Cons.IH [of e] Cons.prems Arrive have "monitor_loop m ss e rs evs \<noteq> Panicked msg"
      by simp
    ultimately show ?thesis
      using Arrive p by (simp split: option.splits select_case.splits)
  qed
qed

lemma monitor_interval_eq:
  "monitor_interval parse e m =
     ParseDuration parse (if Interval m \<noteq> [] then Interval m else CheckInterval (Global (Cfg e)))"
  by (simp add: monitor_interval_def Let_def)

lemma monitor_loop_extends:
  "(\<exists>msg. monitor_loop m ss e rs evs = Panicked msg)
   \<or> (\<exists>rs' evs'. results_of (monitor_loop m ss e rs evs) = rs @ rs'
                    \<and> events_of (monitor_loop m ss e rs evs) = evs @ evs')"
proof (induction ss arbitrary: e rs evs)
  case Nil
  then show ?case by simp
next
  case (Cons s ss)
  show ?case
  proof (cases s)
    case CallStop
    show ?thesis
    proof (cases "Stop e")
      case (Inl msg)
      with CallStop show ?thesis by simp
    next
      case (Inr e')
      with CallStop Cons.IH [of e' rs evs] show ?thesis by simp
    qed
  next
    case (Arrive k)
    obtain e' r ev where p: "performCheck (tick_world k) e m = (e', r, ev)"
      by (cases "performCheck (tick_world k) e m") auto
    show ?thesis
    proof (cases "select e k")
      case None
      with Arrive Cons.IH [of e rs evs] show ?thesis by simp
    next
      case (Some c)
      show ?thesis
      proof (cases c)
        case CaseStop
        with Some Arrive show ?thesis by simp
      next
        case CaseTick
        from Cons.IH [of e' "rs @ [r]" "evs @ ev"]
        have "(\<exists>msg. monitor_loop m ss e' (rs @ [r]) (evs @ ev) = Panicked msg)
              \<or> (\<exists>rs' evs'. results_of (monitor_loop m ss e' (rs @ [r]) (evs @ ev)) = rs @ rs'
                    \<and> events_of (monitor_loop m ss e' (rs @ [r]) (evs @ ev)) = evs @ evs')"
          by auto
        with CaseTick Some Arrive p show ?thesis by simp
      qed
    qed
  qed
qed

lemma example_parse_values:
  "example_parse ''60s'' = Some (60 * Second)" "example_parse ''5s'' = Some (5 * Second)"
  "example_parse ''0s'' = Some 0" "example_parse ''-5s'' = Some (- 5 * Second)"
  "example_parse ''soon'' = None"
  by (simp_all add: example_parse_def)

lemma performCheck_Store_irrelevant:
  assumes "performCheck w e m = (e', r, evs)" and "Store e = Some store"
  shows "performCheck w (e\<lparr>Store := Some store'\<rparr>) m
           = (e'\<lparr>Store := Some store'\<rparr>, r, LogCheck r (store' r) # tl evs)"
  using assms by (cases "probe w m") (auto simp: performCheck_def Let_def split: option.splits)

lemma Notify_http_post: "Notify (w\<lparr>http_post := post\<rparr>) n name isUp wasUp = Notify w n name isUp wasUp"
  by (simp add: Notify_def)

lemma probe_http_post: "probe (w\<lparr>http_post := post\<rparr>) m = probe w m"
  by (simp add: probe_def checkHTTP_def checkTCP_def)

lemma performCheck_http_post: "performCheck (w\<lparr>http_post := post\<rparr>) e m = performCheck w e m"
  by (cases "probe w m")
     (simp add: performCheck_def probe_http_post Notify_http_post Let_def split: option.splits)

lemma fmt_d_500: "fmt_d 500 = ''500''"
  by (simp add: fmt_d_def fmt_nat.simps digit_char_def)

lemma select_closed:
  "stopCh e = Closed \<Longrightarrow> select e k = Some (if tick_wins (Arrive k) then CaseTick else CaseStop)"
  by (cases "pick k") (auto simp: select_def)

lemma monitor_loop_closed_stop:
  assumes "stopCh e = Closed" and "\<not> tick_wins (Arrive k)"
  shows "monitor_loop m (Arrive k # ss) e rs evs = Returned e rs evs"
  using assms by (simp add: select_closed del: tick_wins.simps)

lemma monitor_loop_closed_tick:
  assumes "stopCh e = Closed" and "tick_wins (Arrive k)"
  shows "monitor_loop m (Arrive k # ss) e rs evs =
           (case performCheck (tick_world k) e m of
              (e', r, ev) \<Rightarrow> monitor_loop m ss e' (rs @ [r]) (evs @ ev))"
  using assms by (simp add: select_closed del: tick_wins.simps)

lemma monitor_loop_closed_results:
  assumes "stopCh e = Closed" and "CallStop \<notin> set ss"
  shows "length (results_of (monitor_loop m ss e rs evs)) = length rs + length (takeWhile tick_wins ss)"
  using assms
proof (induction ss arbitrary: e rs evs)
  case Nil
  then show ?case by simp
next
  case (Cons s ss)
  from Cons.prems obtain k where s: "s = Arrive k"
    by (cases s) auto
  show ?case
  proof (cases "tick_wins (Arrive k)")
    case False
    with Cons.prems(1) show ?thesis
      unfolding s by (simp add: monitor_loop_closed_stop del: monitor_loop.simps)
  next
    case True
    obtain e' r ev where p: "performCheck (tick_world k) e m = (e', r, ev)"
      by (cases "performCheck (tick_world k) e m") auto
    then have c: "stopCh e' = Closed"
      using performCheck_stopCh [of "tick_world k" e m] Cons.prems(1) by simp
    from Cons.IH [OF c, of "rs @ [r]" "evs @ ev"] Cons.prems(2) True p Cons.prems(1)
    show ?thesis
      unfolding s by (simp add: monitor_loop_closed_tick del: monitor_loop.simps)
  qed
qed

lemma monitor_loop_closed_returns:
  assumes "stopCh e = Closed" and "CallStop \<notin> set ss" and "\<exists>s \<in> set ss. \<not> tick_wins s"
  shows "\<exists>e' rs' evs'. monitor_loop m ss e rs evs = Returned e' rs' evs'"
  using assms
proof (induction ss arbitrary: e rs evs)
  case Nil
  then show ?case by simp
next
  case (Cons s ss)
  from Cons.prems obtain k where s: "s = Arrive k"
    by (cases s) auto
  show ?case
  proof (cases "tick_wins (Arrive k)")
    case False
    with Cons.prems(1) show ?thesis
      unfolding s by (simp add: monitor_loop_closed_stop del: monitor_loop.simps)
  next
    case True
    obtain e' r ev where p: "performCheck (tick_world k) e m = (e', r, ev)"
      by (cases "performCheck (tick_world k) e m") auto
    then have c: "stopCh e' = Closed"
      using performCheck_stopCh [of "tick_world k" e m] Cons.prems(1) by simp
    from Cons.prems(3) True s have "\<exists>s \<in> set ss. \<not> tick_wins s"
      by auto
    from Cons.IH [OF c _ this, of "rs @ [r]" "evs @ ev"] Cons.prems(2) True p Cons.prems(1)
    show ?thesis
      unfolding s by (simp add: monitor_loop_closed_tick del: monitor_loop.simps)
  qed
qed

lemma performCheck_stopCh_update:
  "performCheck w (e\<lparr>stopCh := c\<rparr>) m =
     (case performCheck w e m of (e', r, ev) \<Rightarrow> (e'\<lparr>stopCh := c\<rparr>, r, ev))"
  by (cases "probe w m") (simp add: performCheck_def Let_def split: option.splits)

lemma example_check:
  "performCheck (example_world 200) (example_engine\<lparr>stopCh := c\<rparr>) example_monitor =
     ((example_engine\<lparr>stopCh := c\<rparr>),
      \<lparr>MonitorName = ''svc'', Timestamp = 1000, Status = True, Latency = 25, Error = []\<rparr>,
      [LogCheck \<lparr>MonitorName = ''svc'', Timestamp = 1000, Status = True, Latency = 25, Error = []\<rparr>
         (Some (LibError ''database is locked'')),
       StateUpdate ''svc'' (Some True) True])"
  by (simp add: performCheck_def probe_def checkHTTP_def example_world_def example_monitor_def
        example_engine_def NewEngine_def example_store_def Let_def)

subsection \<open>Transition detection\<close>

text \<open>
  C1. In an engine that has a notifier, a check calls \<^verbatim>\<open>Notifier.Notify\<close> if and
  only if \<^verbatim>\<open>lastState\<close> holds a status for the target and the new status differs
  from it; the call is then the only one and carries the target's name, the new status
  and the recorded one. With no entry recorded (the target's first check) there is no
  call, whatever the new status. Afterwards the entry is the new result's status.
\<close>

theorem transition_iff_recorded_status_differs:
  assumes notifier: "Notifier e = Some n"
    and run: "performCheck w e m = (e', r, evs)"
  shows "notify_calls evs =
           (case lastState e (Name m) of
              None \<Rightarrow> []
            | Some prior \<Rightarrow> if Status r \<noteq> prior then [(Name m, Status r, prior)] else [])
         \<and> ((\<exists>c. c \<in> set (notify_calls evs)) \<longleftrightarrow>
              (\<exists>prior. lastState e (Name m) = Some prior \<and> Status r \<noteq> prior))
         \<and> (lastState e (Name m) = None \<longrightarrow> notify_calls evs = [])
         \<and> lastState e' (Name m) = Some (Status r)"
proof -
  have e': "e' = fst (performCheck w e m)" and r: "r = fst (snd (performCheck w e m))"
    using run by simp_all
  have st: "Status r = fst (probe w m)"
    by (simp add: r performCheck_result)
  have calls: "notify_calls evs =
           (case lastState e (Name m) of
              None \<Rightarrow> []
            | Some prior \<Rightarrow> if Status r \<noteq> prior then [(Name m, Status r, prior)] else [])"
    unfolding performCheck_events [OF run]
    by (auto simp: notify_calls_append notify_calls_Notify notifier split: option.splits)
  have stored: "lastState e' (Name m) = Some (Status r)"
    by (simp add: e' performCheck_engine st)
  from calls stored show ?thesis
    by (auto split: option.splits)
qed

theorem transition_witness:
  "Notifier example_engine = Some example_service
   \<and> notify_calls (snd (snd (performCheck (example_world 503) example_engine example_monitor)))
       = [(''svc'', False, True)]
   \<and> lastState (fst (performCheck (example_world 503) example_engine example_monitor)) ''svc''
       = Some False"
proof -
  have n: "Notifier example_engine = Some example_service"
    by (simp add: example_engine_def NewEngine_def)
  have st: "Status (fst (snd (performCheck (example_world 503) example_engine example_monitor))) = False"
    by (simp add: performCheck_result probe_def checkHTTP_def example_world_def example_monitor_def)
  have prior: "lastState example_engine ''svc'' = Some True"
    by (simp add: example_engine_def)
  have nm: "Name example_monitor = ''svc''"
    by (simp add: example_monitor_def)
  from transition_iff_recorded_status_differs
         [OF n performCheck_collapse [of "example_world 503" example_engine example_monitor]] n
  show ?thesis
    by (simp add: st prior nm)
qed

subsection \<open>The HTTP probe\<close>

text \<open>
  C2. \<^verbatim>\<open>checkHTTP\<close> succeeds if and only if the GET request is answered and the
  answer's status code is the target's expected status. On another status code the
  failure is \<^verbatim>\<open>status code X, expected Y\<close> with the two codes in decimal; when the
  request fails, the failure is the client's error. An expected status left unset
  (zero) is 200 after the loader's defaulting, and no monitor of a loaded
  configuration has a zero expected status.
\<close>

theorem http_success_iff_expected_status:
  "(fst (checkHTTP w m) \<longleftrightarrow>
      (\<exists>code. http_do w (10 * Second) ''GET'' (URL m) = Inr code \<and> code = ExpectStatus m))
   \<and> (fst (checkHTTP w m) \<longleftrightarrow> checkHTTP w m = (True, None))
   \<and> (\<forall>code. http_do w (10 * Second) ''GET'' (URL m) = Inr code \<and> code \<noteq> ExpectStatus m \<longrightarrow>
         checkHTTP w m =
           (False, Some (Errorf (''status code '' @ fmt_d code @ '', expected ''
                                 @ fmt_d (ExpectStatus m)))))
   \<and> (\<forall>err. http_do w (10 * Second) ''GET'' (URL m) = Inl err \<longrightarrow>
         checkHTTP w m = (False, Some (LibError err)))
   \<and> (ExpectStatus m = 0 \<longrightarrow>
         ExpectStatus (monitor_defaults m) = 200
         \<and> (fst (checkHTTP w (monitor_defaults m)) \<longleftrightarrow>
              http_do w (10 * Second) ''GET'' (URL m) = Inr 200))
   \<and> (ExpectStatus m \<noteq> 0 \<longrightarrow> ExpectStatus (monitor_defaults m) = ExpectStatus m)
   \<and> (\<forall>cfg. LoadConfig ReadFile Unmarshal path = Inr cfg \<longrightarrow>
         (\<forall>m' \<in> set (Monitors cfg). ExpectStatus m' \<noteq> 0))"
  using LoadConfig_ExpectStatus [of ReadFile Unmarshal path]
  by (auto simp: checkHTTP_def monitor_defaults_URL monitor_defaults_ExpectStatus split: sum.splits)

theorem http_success_witness:
  "checkHTTP (example_world 503) example_monitor
     = (False, Some (Errorf ''status code 503, expected 200''))
   \<and> checkHTTP (example_world 200) (monitor_defaults (example_monitor\<lparr>ExpectStatus := 0\<rparr>))
     = (True, None)
   \<and> checkHTTP (example_world 200\<lparr>http_do := \<lambda>timeout method url. Inl ''Get: EOF''\<rparr>)
        example_monitor
     = (False, Some (LibError ''Get: EOF''))"
proof -
  let ?m0 = "example_monitor\<lparr>ExpectStatus := 0\<rparr>"
  let ?w = "example_world 200\<lparr>http_do := \<lambda>timeout method url. Inl ''Get: EOF''\<rparr>"
  have a: "http_do (example_world 503) (10 * Second) ''GET'' (URL example_monitor) = Inr 503
           \<and> 503 \<noteq> ExpectStatus example_monitor"
    by (simp add: example_world_def example_monitor_def)
  have b: "ExpectStatus ?m0 = 0" by simp
  have c: "http_do (example_world 200) (10 * Second) ''GET'' (URL ?m0) = Inr 200"
    by (simp add: example_world_def)
  have d: "http_do ?w (10 * Second) ''GET'' (URL example_monitor) = Inl ''Get: EOF''"
    by simp
  have f: "fmt_d 503 = ''503''" "fmt_d 200 = ''200''"
    by (simp_all add: fmt_d_def fmt_nat.simps digit_char_def)
  have e200: "ExpectStatus example_monitor = 200"
    by (simp add: example_monitor_def)
  have 1: "checkHTTP (example_world 503) example_monitor
     = (False, Some (Errorf ''status code 503, expected 200''))"
    using http_success_iff_expected_status [of "example_world 503" example_monitor] a
    by (simp add: f e200)
  have c': "\<exists>code. http_do (example_world 200) (10 * Second) ''GET'' (URL (monitor_defaults ?m0))
                 = Inr code \<and> code = ExpectStatus (monitor_defaults ?m0)"
    using c by (simp add: monitor_defaults_URL monitor_defaults_ExpectStatus)
  have 2: "checkHTTP (example_world 200) (monitor_defaults ?m0) = (True, None)"
    using http_success_iff_expected_status [of "example_world 200" "monitor_defaults ?m0"] c'
    by blast
  have 3: "checkHTTP ?w example_monitor = (False, Some (LibError ''Get: EOF''))"
    using http_success_iff_expected_status [of ?w example_monitor] d
    by blast
  from 1 2 3 show ?thesis by blast
qed

text \<open>
  C9. The HTTP probe issues a GET request whatever the target's \<^verbatim>\<open>Method\<close>:
  changing that field changes neither \<^verbatim>\<open>checkHTTP\<close>, the dispatch nor the whole
  check; the probe's result is a function of the answer to the GET request on the
  target's URL, so two worlds that answer GET requests alike give the same result
  however they answer other methods. The loader sets an unset method to GET.
\<close>

theorem probe_never_consults_method:
  "checkHTTP w (m\<lparr>Method := meth\<rparr>) = checkHTTP w m
   \<and> probe w (m\<lparr>Method := meth\<rparr>) = probe w m
   \<and> performCheck w e (m\<lparr>Method := meth\<rparr>) = performCheck w e m
   \<and> checkHTTP w m =
       (case http_do w (10 * Second) ''GET'' (URL m) of
          Inl err \<Rightarrow> (False, Some (LibError err))
        | Inr code \<Rightarrow>
            if code = ExpectStatus m then (True, None)
            else (False, Some (Errorf (''status code '' @ fmt_d code @ '', expected ''
                                       @ fmt_d (ExpectStatus m)))))
   \<and> ((\<forall>timeout url. http_do w' timeout ''GET'' url = http_do w timeout ''GET'' url) \<longrightarrow>
         checkHTTP w' m = checkHTTP w m)
   \<and> Method (monitor_defaults m) = (if Method m = [] then ''GET'' else Method m)"
proof -
  have h: "checkHTTP w (m\<lparr>Method := meth\<rparr>) = checkHTTP w m"
    by (simp add: checkHTTP_def split: sum.splits)
  have t: "checkTCP w (m\<lparr>Method := meth\<rparr>) = checkTCP w m"
    by (simp add: checkTCP_def Let_def split: option.splits)
  have i: "checkICMP (m\<lparr>Method := meth\<rparr>) = checkICMP m"
    by (simp add: checkICMP_def)
  have p: "probe w (m\<lparr>Method := meth\<rparr>) = probe w m"
    by (simp add: probe_def h t i)
  have c: "performCheck w e (m\<lparr>Method := meth\<rparr>) = performCheck w e m"
    by (cases "probe w m") (simp add: performCheck_def p Let_def split: option.splits)
  have g: "checkHTTP w m =
       (case http_do w (10 * Second) ''GET'' (URL m) of
          Inl err \<Rightarrow> (False, Some (LibError err))
        | Inr code \<Rightarrow>
            if code = ExpectStatus m then (True, None)
            else (False, Some (Errorf (''status code '' @ fmt_d code @ '', expected ''
                                       @ fmt_d (ExpectStatus m)))))"
    by (simp add: checkHTTP_def split: sum.splits)
  have a: "(\<forall>timeout url. http_do w' timeout ''GET'' url = http_do w timeout ''GET'' url) \<longrightarrow>
         checkHTTP w' m = checkHTTP w m"
    by (simp add: checkHTTP_def)
  from h p c g a monitor_defaults_Method [of m] show ?thesis
    by blast
qed

theorem probe_method_witness:
  "Method example_monitor = ''POST''
   \<and> http_do (example_world 200) (10 * Second) ''POST'' (URL example_monitor) = Inr 405
   \<and> checkHTTP (example_world 200) example_monitor = (True, None)
   \<and> checkHTTP (example_world 200) (example_monitor\<lparr>Method := ''GET''\<rparr>) = (True, None)
   \<and> checkHTTP (example_world 200\<lparr>http_do := \<lambda>timeout method url. Inr 200\<rparr>) example_monitor
       = (True, None)"
proof -
  let ?w' = "example_world 200\<lparr>http_do := \<lambda>timeout method url. Inr 200\<rparr>"
  have a: "\<forall>timeout url. http_do ?w' timeout ''GET'' url = http_do (example_world 200) timeout ''GET'' url"
    by (simp add: example_world_def)
  have b: "checkHTTP (example_world 200) example_monitor = (True, None)"
    by (simp add: checkHTTP_def example_world_def example_monitor_def)
  have c: "Method example_monitor = ''POST''
           \<and> http_do (example_world 200) (10 * Second) ''POST'' (URL example_monitor) = Inr 405"
    by (simp add: example_world_def example_monitor_def)
  from probe_never_consults_method
         [where w = "example_world 200" and m = example_monitor and meth = "''GET''"
            and e = example_engine and w' = ?w']
    a b c
  show ?thesis by simp
qed

subsection \<open>Unsupported and unknown protocol kinds\<close>

text \<open>
  C4. For a target of type \<^verbatim>\<open>icmp\<close> the probe is \<^verbatim>\<open>checkICMP\<close>, which never
  succeeds, whatever the world: it returns false with the error
  \<^verbatim>\<open>ICMP not yet implemented (requires decision on root vs shell)\<close>, an error this
  repository builds and not one the network library returns, and the check's result
  carries that text.
\<close>

theorem icmp_always_unimplemented_failure:
  assumes "Type m = ''icmp''"
  shows "probe w m =
           (False, Some (Errorf ''ICMP not yet implemented (requires decision on root vs shell)''))
         \<and> probe w m = checkICMP m
         \<and> \<not> fst (probe w m)
         \<and> (\<forall>s. snd (probe w m) \<noteq> Some (LibError s))
         \<and> Status (fst (snd (performCheck w e m))) = False
         \<and> Error (fst (snd (performCheck w e m)))
             = ''ICMP '' @ ''not yet implemented'' @ '' (requires decision on root vs shell)''"
  using assms by (simp add: probe_def checkICMP_def performCheck_result)

theorem icmp_witness:
  "Type (example_monitor\<lparr>Type := ''icmp'', Host := ''8.8.8.8'', URL := []\<rparr>) = ''icmp''
   \<and> probe (example_world 200) (example_monitor\<lparr>Type := ''icmp'', Host := ''8.8.8.8'', URL := []\<rparr>)
       = (False, Some (Errorf ''ICMP not yet implemented (requires decision on root vs shell)''))"
proof -
  have t: "Type (example_monitor\<lparr>Type := ''icmp'', Host := ''8.8.8.8'', URL := []\<rparr>) = ''icmp''"
    by simp
  from icmp_always_unimplemented_failure [OF t, of "example_world 200" example_engine] t
  show ?thesis by blast
qed

text \<open>
  C5. For a target whose type is none of \<^verbatim>\<open>http\<close>, \<^verbatim>\<open>https\<close>, \<^verbatim>\<open>tcp\<close>,
  \<^verbatim>\<open>icmp\<close> (the empty type included), the probe is the HTTP probe when the URL is
  not empty; otherwise it fails with the error \<^verbatim>\<open>unknown monitor type\<close>. The
  check is not skipped: a result named after the target is built, handed to the store
  first when there is one, and recorded as the target's last status. A target whose
  type is still empty after the loader's inference has no URL, and so fails this way.
\<close>

theorem unknown_type_http_or_explicit_failure:
  assumes "Type m \<notin> {''http'', ''https'', ''tcp'', ''icmp''}"
    and "performCheck w e m = (e', r, evs)"
  shows "(URL m \<noteq> [] \<longrightarrow> probe w m = checkHTTP w m)
         \<and> (URL m = [] \<longrightarrow>
               probe w m = (False, Some (Errorf ''unknown monitor type''))
               \<and> Status r = False \<and> Error r = ''unknown monitor type'')
         \<and> MonitorName r = Name m
         \<and> lastState e' (Name m) = Some (Status r)
         \<and> (\<forall>store. Store e = Some store \<longrightarrow> hd evs = LogCheck r (store r))
         \<and> (Type (monitor_defaults m) = [] \<longrightarrow>
              probe w (monitor_defaults m) = (False, Some (Errorf ''unknown monitor type'')))"
proof -
  have r: "r = fst (snd (performCheck w e m))" and e': "e' = fst (performCheck w e m)"
    using assms(2) by simp_all
  have p: "probe w m = (if URL m \<noteq> [] then checkHTTP w m
                        else (False, Some (Errorf ''unknown monitor type'')))"
    using assms(1) by (simp add: probe_def)
  have a: "URL m = [] \<longrightarrow> Status r = False \<and> Error r = ''unknown monitor type''"
    by (simp add: r performCheck_result p)
  have b: "MonitorName r = Name m \<and> lastState e' (Name m) = Some (Status r)"
    by (simp add: r e' performCheck_result performCheck_engine)
  have c: "\<forall>store. Store e = Some store \<longrightarrow> hd evs = LogCheck r (store r)"
    unfolding performCheck_events [OF assms(2)] by simp
  have d: "Type (monitor_defaults m) = [] \<longrightarrow>
              probe w (monitor_defaults m) = (False, Some (Errorf ''unknown monitor type''))"
  proof
    assume t: "Type (monitor_defaults m) = []"
    then have "URL (monitor_defaults m) = []"
      by (simp add: monitor_defaults_Type_empty monitor_defaults_URL)
    with t show "probe w (monitor_defaults m) = (False, Some (Errorf ''unknown monitor type''))"
      by (simp add: probe_def)
  qed
  from p a b c d show ?thesis by simp
qed

theorem unknown_type_witness:
  "Type (example_monitor\<lparr>Type := ''grpc'', URL := []\<rparr>) \<notin> {''http'', ''https'', ''tcp'', ''icmp''}
   \<and> probe (example_world 200) (example_monitor\<lparr>Type := ''grpc'', URL := []\<rparr>)
       = (False, Some (Errorf ''unknown monitor type''))
   \<and> probe (example_world 200) (example_monitor\<lparr>Type := []\<rparr>) = (True, None)"
proof -
  let ?m1 = "example_monitor\<lparr>Type := ''grpc'', URL := []\<rparr>"
  let ?m2 = "example_monitor\<lparr>Type := []\<rparr>"
  have t1: "Type ?m1 \<notin> {''http'', ''https'', ''tcp'', ''icmp''}" by simp
  have t2: "Type ?m2 \<notin> {''http'', ''https'', ''tcp'', ''icmp''}" by simp
  have u1: "URL ?m1 = []" by simp
  have u2: "URL ?m2 \<noteq> []" by (simp add: example_monitor_def)
  have h: "checkHTTP (example_world 200) ?m2 = (True, None)"
    by (simp add: checkHTTP_def example_world_def example_monitor_def)
  from unknown_type_http_or_explicit_failure
         [OF t1 performCheck_collapse [of "example_world 200" example_engine ?m1]] u1
  have 1: "probe (example_world 200) ?m1 = (False, Some (Errorf ''unknown monitor type''))"
    by blast
  from unknown_type_http_or_explicit_failure
         [OF t2 performCheck_collapse [of "example_world 200" example_engine ?m2]] u2 h
  have 2: "probe (example_world 200) ?m2 = (True, None)"
    by simp
  from t1 1 2 show ?thesis by blast
qed

subsection \<open>Error text and success flag\<close>

text \<open>
  C6. Each probe, and the dispatch over them, returns either success with no error or
  failure with an error, never another combination, and the result's status is the
  success flag. Provided
  the errors the HTTP client and the dialer hand back render to a text that is not
  empty (as the library's \<^verbatim>\<open>*url.Error\<close> and \<^verbatim>\<open>*net.OpError\<close> do), the
  result's error text is not empty if and only if its status is false.
\<close>

theorem error_text_iff_failure:
  assumes run: "performCheck w e m = (e', r, evs)"
    and http_text: "\<And>timeout method url err. http_do w timeout method url = Inl err \<Longrightarrow> err \<noteq> []"
    and dial_text: "\<And>network address timeout err.
                      tcp_dial w network address timeout = Some err \<Longrightarrow> err \<noteq> []"
  shows "(probe w m = (True, None) \<or> (\<exists>err. probe w m = (False, Some err)))
         \<and> (checkHTTP w m = (True, None) \<or> (\<exists>err. checkHTTP w m = (False, Some err)))
         \<and> (checkTCP w m = (True, None) \<or> (\<exists>err. checkTCP w m = (False, Some err)))
         \<and> (\<exists>err. checkICMP m = (False, Some err))
         \<and> Status r = fst (probe w m)
         \<and> (Error r \<noteq> [] \<longleftrightarrow> \<not> Status r)"
proof -
  have executors:
    "(checkHTTP w m = (True, None) \<or> (\<exists>err. checkHTTP w m = (False, Some err)))
     \<and> (checkTCP w m = (True, None) \<or> (\<exists>err. checkTCP w m = (False, Some err)))
     \<and> (\<exists>err. checkICMP m = (False, Some err))"
    using checkHTTP_cases [of w m] checkTCP_cases [of w m] by (simp add: checkICMP_def)
  have r: "r = fst (snd (performCheck w e m))"
    using run by simp
  have st: "Status r = fst (probe w m)"
    and er: "Error r = (case snd (probe w m) of None \<Rightarrow> [] | Some x \<Rightarrow> Error_text x)"
    by (simp_all add: r performCheck_result)
  have lib: "s \<noteq> []" if "snd (probe w m) = Some (LibError s)" for s
  proof -
    have h: "snd (checkHTTP w m) = Some (LibError s) \<Longrightarrow> s \<noteq> []"
      using http_text by (auto simp: checkHTTP_def split: sum.splits if_splits)
    have t: "snd (checkTCP w m) = Some (LibError s) \<Longrightarrow> s \<noteq> []"
      using dial_text by (auto simp: checkTCP_def Let_def split: option.splits)
    from that h t show ?thesis
      by (auto simp: probe_def checkICMP_def split: if_splits)
  qed
  have nonempty: "Error_text x \<noteq> []" if "snd (probe w m) = Some x" for x
    using that lib probe_Errorf_nonempty [of w m] by (cases x) auto
  from probe_cases [of w m] show ?thesis
  proof
    assume "probe w m = (True, None)"
    with executors show ?thesis by (simp add: st er)
  next
    assume "\<exists>err. probe w m = (False, Some err)"
    then obtain err where p: "probe w m = (False, Some err)" by blast
    with nonempty [of err] executors show ?thesis by (simp add: st er)
  qed
qed

theorem error_text_witness:
  "Status (fst (snd (performCheck (example_world 503) example_engine example_monitor))) = False
   \<and> Error (fst (snd (performCheck (example_world 503) example_engine example_monitor)))
       = ''status code 503, expected 200''
   \<and> Status (fst (snd (performCheck (example_world 200) example_engine example_monitor))) = True
   \<and> Error (fst (snd (performCheck (example_world 200) example_engine example_monitor))) = []"
proof -
  have h: "\<And>timeout method url err.
             http_do (example_world c) timeout method url = Inl err \<Longrightarrow> err \<noteq> []" for c
    by (simp add: example_world_def split: if_splits)
  have d: "\<And>network address timeout err.
             tcp_dial (example_world c) network address timeout = Some err \<Longrightarrow> err \<noteq> []" for c
    by (auto simp: example_world_def)
  have f: "fmt_d 503 = ''503''" "fmt_d 200 = ''200''"
    by (simp_all add: fmt_d_def fmt_nat.simps digit_char_def)
  have p503: "probe (example_world 503) example_monitor
                = (False, Some (Errorf ''status code 503, expected 200''))"
    by (simp add: probe_def checkHTTP_def example_world_def example_monitor_def f)
  have p200: "probe (example_world 200) example_monitor = (True, None)"
    by (simp add: probe_def checkHTTP_def example_world_def example_monitor_def)
  have e503: "Error (fst (snd (performCheck (example_world 503) example_engine example_monitor)))
       = ''status code 503, expected 200''"
    by (simp add: performCheck_result p503)
  from error_text_iff_failure
         [OF performCheck_collapse [of "example_world 503" example_engine example_monitor] h d]
       error_text_iff_failure
         [OF performCheck_collapse [of "example_world 200" example_engine example_monitor] h d]
       e503
  show ?thesis by (simp add: p503 p200)
qed

subsection \<open>Intervals\<close>

text \<open>
  C3. The interval of a target's check loop is \<^verbatim>\<open>ParseDuration\<close> of the target's
  own interval string when that string is not empty, and of the global default
  otherwise, and \<^verbatim>\<open>runMonitor\<close> builds its ticker with exactly that period: when
  the interval is positive the run is the call of \<^verbatim>\<open>time.NewTicker\<close> with it, then
  the first check, then the loop, so the trace of the run starts with the ticker of
  that period and its results with the first check. A string that
  \<^verbatim>\<open>time.ParseDuration\<close> rejects gives 60 seconds: \<^verbatim>\<open>ParseDuration\<close> returns no
  error, the ticker of 60 seconds is built, the first check runs and the loop is
  entered, and the run does not panic (as long as \<^verbatim>\<open>Stop()\<close> is called at most
  once).
\<close>

theorem effective_interval_override_else_global:
  "(Interval m \<noteq> [] \<longrightarrow> monitor_interval parse e m = ParseDuration parse (Interval m))
   \<and> (Interval m = [] \<longrightarrow>
         monitor_interval parse e m = ParseDuration parse (CheckInterval (Global (Cfg e))))
   \<and> (parse d = None \<longrightarrow> ParseDuration parse d = 60 * Second)
   \<and> (0 < monitor_interval parse e m \<longrightarrow>
         NewTicker (monitor_interval parse e m) = Inr (monitor_interval parse e m))
   \<and> (Interval m \<noteq> [] \<and> 0 < ParseDuration parse (Interval m) \<longrightarrow>
         runMonitor parse w0 ss e m =
           (case performCheck w0 e m of
              (e', r, ev) \<Rightarrow>
                monitor_loop m ss e' [r] (TickerStarted (ParseDuration parse (Interval m)) # ev)))
   \<and> (Interval m = [] \<and> 0 < ParseDuration parse (CheckInterval (Global (Cfg e))) \<longrightarrow>
         runMonitor parse w0 ss e m =
           (case performCheck w0 e m of
              (e', r, ev) \<Rightarrow>
                monitor_loop m ss e' [r]
                  (TickerStarted (ParseDuration parse (CheckInterval (Global (Cfg e)))) # ev)))
   \<and> (0 < monitor_interval parse e m \<and> stopCh e = Open
        \<and> length (filter (\<lambda>s. s = CallStop) ss) \<le> 1 \<longrightarrow>
         (\<forall>msg. runMonitor parse w0 ss e m \<noteq> Panicked msg)
         \<and> hd (events_of (runMonitor parse w0 ss e m)) = TickerStarted (monitor_interval parse e m)
         \<and> hd (results_of (runMonitor parse w0 ss e m)) = fst (snd (performCheck w0 e m)))
   \<and> (parse (if Interval m \<noteq> [] then Interval m else CheckInterval (Global (Cfg e))) = None \<longrightarrow>
         monitor_interval parse e m = 60 * Second
         \<and> runMonitor parse w0 ss e m =
             (case performCheck w0 e m of
                (e', r, ev) \<Rightarrow> monitor_loop m ss e' [r] (TickerStarted (60 * Second) # ev))
         \<and> (stopCh e = Open \<and> length (filter (\<lambda>s. s = CallStop) ss) \<le> 1 \<longrightarrow>
              (\<forall>msg. runMonitor parse w0 ss e m \<noteq> Panicked msg)))"
proof -
  let ?i = "monitor_interval parse e m"
  obtain e' r ev where p: "performCheck w0 e m = (e', r, ev)"
    by (cases "performCheck w0 e m") auto
  have run: "runMonitor parse w0 ss e m = monitor_loop m ss e' [r] (TickerStarted ?i # ev)"
    if "0 < ?i"
    using that by (simp add: runMonitor_def NewTicker_def p)
  have ovr: "Interval m \<noteq> [] \<longrightarrow> ?i = ParseDuration parse (Interval m)"
    and glb: "Interval m = [] \<longrightarrow> ?i = ParseDuration parse (CheckInterval (Global (Cfg e)))"
    by (simp_all add: monitor_interval_eq)
  have fb: "parse d = None \<longrightarrow> ParseDuration parse d = 60 * Second"
    by (simp add: ParseDuration_def)
  have tk: "0 < ?i \<longrightarrow> NewTicker ?i = Inr ?i"
    by (simp add: NewTicker_def)
  have r1: "Interval m \<noteq> [] \<and> 0 < ParseDuration parse (Interval m) \<longrightarrow>
         runMonitor parse w0 ss e m =
           (case performCheck w0 e m of
              (e', r, ev) \<Rightarrow>
                monitor_loop m ss e' [r] (TickerStarted (ParseDuration parse (Interval m)) # ev))"
    using run ovr by (simp add: p)
  have r2: "Interval m = [] \<and> 0 < ParseDuration parse (CheckInterval (Global (Cfg e))) \<longrightarrow>
         runMonitor parse w0 ss e m =
           (case performCheck w0 e m of
              (e', r, ev) \<Rightarrow>
                monitor_loop m ss e' [r]
                  (TickerStarted (ParseDuration parse (CheckInterval (Global (Cfg e)))) # ev))"
    using run glb by (simp add: p)
  have np: "runMonitor parse w0 ss e m \<noteq> Panicked msg"
    if "0 < ?i" and "stopCh e = Open" and "length (filter (\<lambda>s. s = CallStop) ss) \<le> 1" for msg
  proof -
    have "stopCh e' = Open"
      using performCheck_stopCh [of w0 e m] that(2) p by simp
    from monitor_loop_open_no_panic [OF this that(3)] show ?thesis
      by (simp add: run [OF that(1)])
  qed
  have first: "hd (events_of (runMonitor parse w0 ss e m)) = TickerStarted ?i
               \<and> hd (results_of (runMonitor parse w0 ss e m)) = fst (snd (performCheck w0 e m))"
    if i: "0 < ?i" and o: "stopCh e = Open" and c: "length (filter (\<lambda>s. s = CallStop) ss) \<le> 1"
  proof -
    from monitor_loop_extends [of m ss e' "[r]" "TickerStarted ?i # ev"] np [OF i o c]
    obtain rs' evs' where
      "results_of (runMonitor parse w0 ss e m) = [r] @ rs'"
      "events_of (runMonitor parse w0 ss e m) = (TickerStarted ?i # ev) @ evs'"
      by (auto simp: run [OF i])
    then show ?thesis by (simp add: p)
  qed
  have rej: "?i = 60 * Second"
    if "parse (if Interval m \<noteq> [] then Interval m else CheckInterval (Global (Cfg e))) = None"
    using that by (simp add: monitor_interval_eq ParseDuration_def)
  have pos: "0 < ?i"
    if "parse (if Interval m \<noteq> [] then Interval m else CheckInterval (Global (Cfg e))) = None"
    by (simp add: rej [OF that] Second_def)
  have r3: "parse (if Interval m \<noteq> [] then Interval m else CheckInterval (Global (Cfg e))) = None \<longrightarrow>
         ?i = 60 * Second
         \<and> runMonitor parse w0 ss e m =
             (case performCheck w0 e m of
                (e', r, ev) \<Rightarrow> monitor_loop m ss e' [r] (TickerStarted (60 * Second) # ev))
         \<and> (stopCh e = Open \<and> length (filter (\<lambda>s. s = CallStop) ss) \<le> 1 \<longrightarrow>
              (\<forall>msg. runMonitor parse w0 ss e m \<noteq> Panicked msg))"
  proof
    assume h: "parse (if Interval m \<noteq> [] then Interval m else CheckInterval (Global (Cfg e))) = None"
    have "runMonitor parse w0 ss e m =
             (case performCheck w0 e m of
                (e', r, ev) \<Rightarrow> monitor_loop m ss e' [r] (TickerStarted (60 * Second) # ev))"
      using run [OF pos [OF h]] rej [OF h] by (simp add: p)
    with rej [OF h] np [OF pos [OF h]] show "?i = 60 * Second
         \<and> runMonitor parse w0 ss e m =
             (case performCheck w0 e m of
                (e', r, ev) \<Rightarrow> monitor_loop m ss e' [r] (TickerStarted (60 * Second) # ev))
         \<and> (stopCh e = Open \<and> length (filter (\<lambda>s. s = CallStop) ss) \<le> 1 \<longrightarrow>
              (\<forall>msg. runMonitor parse w0 ss e m \<noteq> Panicked msg))"
      by blast
  qed
  from ovr glb fb tk r1 r2 np first r3 show ?thesis
    by blast
qed

theorem effective_interval_witness:
  "monitor_interval example_parse example_engine (example_monitor\<lparr>Interval := ''5s''\<rparr>) = 5 * Second
   \<and> monitor_interval example_parse example_engine example_monitor = 60 * Second
   \<and> example_parse ''soon'' = None
   \<and> monitor_interval example_parse example_engine (example_monitor\<lparr>Interval := ''soon''\<rparr>)
       = 60 * Second
   \<and> runMonitor example_parse (example_world 200) [] example_engine
        (example_monitor\<lparr>Interval := ''soon''\<rparr>) \<noteq> Panicked ''non-positive interval for NewTicker''
   \<and> hd (events_of (runMonitor example_parse (example_world 200) [tick_arrival] example_engine
                       (example_monitor\<lparr>Interval := ''5s''\<rparr>))) = TickerStarted (5 * Second)
   \<and> hd (events_of (runMonitor example_parse (example_world 200) [tick_arrival] example_engine
                       example_monitor)) = TickerStarted (60 * Second)
   \<and> hd (events_of (runMonitor example_parse (example_world 200) [tick_arrival] example_engine
                       (example_monitor\<lparr>Interval := ''soon''\<rparr>))) = TickerStarted (60 * Second)
   \<and> hd (results_of (runMonitor example_parse (example_world 200) [tick_arrival] example_engine
                        (example_monitor\<lparr>Interval := ''5s''\<rparr>)))
       = \<lparr>MonitorName = ''svc'', Timestamp = 1000, Status = True, Latency = 25, Error = []\<rparr>"
proof -
  let ?m5 = "example_monitor\<lparr>Interval := ''5s''\<rparr>"
  let ?ms = "example_monitor\<lparr>Interval := ''soon''\<rparr>"
  have i5: "Interval ?m5 \<noteq> []" and isn: "Interval ?ms \<noteq> []" and i0: "Interval example_monitor = []"
    by (simp_all add: example_monitor_def)
  have g: "CheckInterval (Global (Cfg example_engine)) = ''60s''"
    by (simp add: example_engine_def NewEngine_def)
  have ps: "example_parse (if Interval ?ms \<noteq> [] then Interval ?ms
                           else CheckInterval (Global (Cfg example_engine))) = None"
    by (simp add: example_parse_values)
  have op0: "stopCh example_engine = Open \<and> length (filter (\<lambda>s. s = CallStop) []) \<le> 1"
    by (simp add: example_engine_def NewEngine_def)
  have op1: "stopCh example_engine = Open \<and> length (filter (\<lambda>s. s = CallStop) [tick_arrival]) \<le> 1"
    by (simp add: example_engine_def NewEngine_def tick_arrival_def)
  have 1: "monitor_interval example_parse example_engine ?m5 = 5 * Second"
    using effective_interval_override_else_global [of ?m5 example_parse example_engine] i5
    by (simp add: ParseDuration_def example_parse_values)
  have 2: "monitor_interval example_parse example_engine example_monitor = 60 * Second"
    using effective_interval_override_else_global [of example_monitor example_parse example_engine] i0
    by (simp add: ParseDuration_def example_parse_values g)
  have 3: "monitor_interval example_parse example_engine ?ms = 60 * Second
           \<and> runMonitor example_parse (example_world 200) [] example_engine ?ms
               \<noteq> Panicked ''non-positive interval for NewTicker''"
    using effective_interval_override_else_global
            [where m = ?ms and parse = example_parse and e = example_engine
               and ?w0.0 = "example_world 200" and ss = "[]"] ps op0
    by blast
  have pos: "0 < monitor_interval example_parse example_engine ?m5"
    "0 < monitor_interval example_parse example_engine example_monitor"
    "0 < monitor_interval example_parse example_engine ?ms"
    using 1 2 3 by (simp_all add: Second_def)
  have 4: "hd (events_of (runMonitor example_parse (example_world 200) [tick_arrival] example_engine ?m5))
             = TickerStarted (monitor_interval example_parse example_engine ?m5)
           \<and> hd (results_of (runMonitor example_parse (example_world 200) [tick_arrival]
                                example_engine ?m5))
             = fst (snd (performCheck (example_world 200) example_engine ?m5))"
    using effective_interval_override_else_global
            [where m = ?m5 and parse = example_parse and e = example_engine
               and ?w0.0 = "example_world 200" and ss = "[tick_arrival]"] pos(1) op1
    by blast
  have 5: "hd (events_of (runMonitor example_parse (example_world 200) [tick_arrival] example_engine
                            example_monitor))
             = TickerStarted (monitor_interval example_parse example_engine example_monitor)"
    using effective_interval_override_else_global
            [where m = example_monitor and parse = example_parse and e = example_engine
               and ?w0.0 = "example_world 200" and ss = "[tick_arrival]"] pos(2) op1
    by blast
  have 6: "hd (events_of (runMonitor example_parse (example_world 200) [tick_arrival] example_engine ?ms))
             = TickerStarted (monitor_interval example_parse example_engine ?ms)"
    using effective_interval_override_else_global
            [where m = ?ms and parse = example_parse and e = example_engine
               and ?w0.0 = "example_world 200" and ss = "[tick_arrival]"] pos(3) op1
    by blast
  have r: "fst (snd (performCheck (example_world 200) example_engine ?m5))
             = \<lparr>MonitorName = ''svc'', Timestamp = 1000, Status = True, Latency = 25, Error = []\<rparr>"
    by (simp add: performCheck_result probe_def checkHTTP_def example_world_def example_monitor_def)
  from 1 2 3 4 5 6 r example_parse_values(5) show ?thesis by simp
qed

text \<open>
  C10. \<^verbatim>\<open>ParseDuration\<close> returns what \<^verbatim>\<open>time.ParseDuration\<close> accepted, unchanged,
  zero and negative durations included; it returns the 60 seconds only for a string
  that is rejected, so a result that is not positive is always a parsed one. When the
  string that decides a target's interval parses to a duration that is not positive,
  that duration reaches \<^verbatim>\<open>time.NewTicker\<close> and \<^verbatim>\<open>runMonitor\<close> panics before its
  first check.
\<close>

theorem nonpositive_interval_reaches_ticker:
  "(\<forall>dur. parse d = Some dur \<longrightarrow> ParseDuration parse d = dur)
   \<and> (parse d = None \<longrightarrow> ParseDuration parse d = 60 * Second)
   \<and> (ParseDuration parse d \<le> 0 \<longrightarrow> parse d = Some (ParseDuration parse d))
   \<and> (\<forall>dur. parse (if Interval m \<noteq> [] then Interval m else CheckInterval (Global (Cfg e)))
               = Some dur \<and> dur \<le> 0 \<longrightarrow>
         monitor_interval parse e m = dur
         \<and> NewTicker (monitor_interval parse e m) = Inl ''non-positive interval for NewTicker''
         \<and> runMonitor parse w0 ss e m = Panicked ''non-positive interval for NewTicker'')"
  by (auto simp: ParseDuration_def monitor_interval_eq runMonitor_def NewTicker_def Second_def
        split: option.splits)

theorem nonpositive_interval_witness:
  "example_parse ''-5s'' = Some (- 5 * Second)
   \<and> ParseDuration example_parse ''-5s'' = - 5 * Second
   \<and> ParseDuration example_parse ''0s'' = 0
   \<and> runMonitor example_parse (example_world 200) [] example_engine
        (example_monitor\<lparr>Interval := ''-5s''\<rparr>) = Panicked ''non-positive interval for NewTicker''
   \<and> runMonitor example_parse (example_world 200) [] example_engine
        (example_monitor\<lparr>Interval := ''0s''\<rparr>) = Panicked ''non-positive interval for NewTicker''"
proof -
  let ?mn = "example_monitor\<lparr>Interval := ''-5s''\<rparr>"
  let ?mz = "example_monitor\<lparr>Interval := ''0s''\<rparr>"
  have pn: "example_parse (if Interval ?mn \<noteq> [] then Interval ?mn
                           else CheckInterval (Global (Cfg example_engine))) = Some (- 5 * Second)
            \<and> - 5 * Second \<le> 0"
    by (simp add: example_parse_values Second_def)
  have pz: "example_parse (if Interval ?mz \<noteq> [] then Interval ?mz
                           else CheckInterval (Global (Cfg example_engine))) = Some 0
            \<and> (0::int) \<le> 0"
    by (simp add: example_parse_values)
  have 1: "ParseDuration example_parse ''-5s'' = - 5 * Second"
    using nonpositive_interval_reaches_ticker [where parse = example_parse and d = "''-5s''"]
      example_parse_values(4) by blast
  have 2: "ParseDuration example_parse ''0s'' = 0"
    using nonpositive_interval_reaches_ticker [where parse = example_parse and d = "''0s''"]
      example_parse_values(3) by blast
  have 3: "runMonitor example_parse (example_world 200) [] example_engine ?mn
             = Panicked ''non-positive interval for NewTicker''"
    using nonpositive_interval_reaches_ticker
            [where parse = example_parse and m = ?mn and e = example_engine
               and ?w0.0 = "example_world 200" and ss = "[]"] pn
    by blast
  have 4: "runMonitor example_parse (example_world 200) [] example_engine ?mz
             = Panicked ''non-positive interval for NewTicker''"
    using nonpositive_interval_reaches_ticker
            [where parse = example_parse and m = ?mz and e = example_engine
               and ?w0.0 = "example_world 200" and ss = "[]"] pz
    by blast
  from 1 2 3 4 example_parse_values(4) show ?thesis by blast
qed

subsection \<open>The effects of one check\<close>

text \<open>
  C7. In an engine with a store and a notifier, one check does, in this order: the
  call of \<^verbatim>\<open>Store.LogCheck\<close> with the result, always; the read and write of
  \<^verbatim>\<open>lastState\<close>; and, only when a recorded status differs from the new one, the
  call of \<^verbatim>\<open>Notify\<close>, which starts one goroutine per sender and waits for none.
  Whatever \<^verbatim>\<open>LogCheck\<close> returns, the result, the new state and the calls after it
  are the same; whatever the notification endpoint answers, the check is the same;
  and the loop that goes on from the new state does not panic.
\<close>

theorem check_cycle_effects_in_order:
  assumes store: "Store e = Some store"
    and notifier: "Notifier e = Some n"
    and run: "performCheck w e m = (e', r, evs)"
  shows "evs = LogCheck r (store r)
               # StateUpdate (Name m) (lastState e (Name m)) (Status r)
               # (case lastState e (Name m) of
                    None \<Rightarrow> []
                  | Some prior \<Rightarrow>
                      if prior \<noteq> Status r
                      then NotifyCall (Name m) (Status r) prior
                           # Notify w n (Name m) (Status r) prior
                      else [])
         \<and> (\<exists>msg. Notify w n (Name m) isUp wasUp = map (\<lambda>sender. GoSend sender msg) (Senders n))
         \<and> lastState e' = (lastState e)(Name m \<mapsto> Status r)
         \<and> (\<forall>store'. performCheck w (e\<lparr>Store := Some store'\<rparr>) m
                         = (e'\<lparr>Store := Some store'\<rparr>, r, LogCheck r (store' r) # tl evs))
         \<and> (\<forall>post. performCheck (w\<lparr>http_post := post\<rparr>) e m = (e', r, evs))
         \<and> (stopCh e = Open \<and> length (filter (\<lambda>s. s = CallStop) ss) \<le> 1 \<longrightarrow>
              (\<forall>msg. monitor_loop m ss e' rs0 evs0 \<noteq> Panicked msg))"
proof -
  have e': "e' = fst (performCheck w e m)" and r: "r = fst (snd (performCheck w e m))"
    using run by simp_all
  have st: "Status r = fst (probe w m)"
    by (simp add: r performCheck_result)
  have order: "evs = LogCheck r (store r)
               # StateUpdate (Name m) (lastState e (Name m)) (Status r)
               # (case lastState e (Name m) of
                    None \<Rightarrow> []
                  | Some prior \<Rightarrow>
                      if prior \<noteq> Status r
                      then NotifyCall (Name m) (Status r) prior
                           # Notify w n (Name m) (Status r) prior
                      else [])"
    using performCheck_events [OF run] by (simp add: store notifier split: option.splits)
  have spawn: "\<exists>msg. Notify w n (Name m) isUp wasUp = map (\<lambda>sender. GoSend sender msg) (Senders n)"
    by (simp add: Notify_def Let_def)
  have state: "lastState e' = (lastState e)(Name m \<mapsto> Status r)"
    by (simp add: e' performCheck_engine st)
  have storefail: "\<forall>store'. performCheck w (e\<lparr>Store := Some store'\<rparr>) m
                         = (e'\<lparr>Store := Some store'\<rparr>, r, LogCheck r (store' r) # tl evs)"
    using performCheck_Store_irrelevant [OF run store] by blast
  have sendfail: "\<forall>post. performCheck (w\<lparr>http_post := post\<rparr>) e m = (e', r, evs)"
    by (simp add: performCheck_http_post run)
  have loop: "monitor_loop m ss e' rs0 evs0 \<noteq> Panicked msg"
    if "stopCh e = Open" and "length (filter (\<lambda>s. s = CallStop) ss) \<le> 1" for msg
  proof -
    have "stopCh e' = Open"
      using performCheck_stopCh [of w e m] that(1) by (simp add: e')
    from monitor_loop_open_no_panic [OF this that(2)] show ?thesis .
  qed
  from order spawn state storefail sendfail loop show ?thesis
    by blast
qed

theorem check_cycle_witness:
  "Store example_engine = Some example_store
   \<and> Notifier example_engine = Some example_service
   \<and> example_store (fst (snd (performCheck (example_world 503) example_engine example_monitor)))
       = Some (LibError ''database is locked'')
   \<and> snd (snd (performCheck (example_world 503) example_engine example_monitor))
       = [LogCheck (fst (snd (performCheck (example_world 503) example_engine example_monitor)))
            (Some (LibError ''database is locked'')),
          StateUpdate ''svc'' (Some True) False,
          NotifyCall ''svc'' False True,
          GoSend (SlackSender ''https://hooks.example/T0'')
            (emoji_down @ '' Monitor *svc* is DOWN at Mon, 02 Jan 2006 15:04:05 MST'')]
   \<and> goroutine_result (example_world 503)
        (GoSend (SlackSender ''https://hooks.example/T0'')
           (emoji_down @ '' Monitor *svc* is DOWN at Mon, 02 Jan 2006 15:04:05 MST''))
       = Some (Errorf ''api request failed with status: 500'')"
proof -
  let ?p = "performCheck (example_world 503) example_engine example_monitor"
  have s: "Store example_engine = Some example_store"
    and n: "Notifier example_engine = Some example_service"
    by (simp_all add: example_engine_def NewEngine_def)
  have st: "Status (fst (snd ?p)) = False"
    by (simp add: performCheck_result probe_def checkHTTP_def example_world_def example_monitor_def)
  have prior: "lastState example_engine ''svc'' = Some True"
    by (simp add: example_engine_def)
  have nm: "Name example_monitor = ''svc''"
    by (simp add: example_monitor_def)
  have msg: "Notify (example_world 503) example_service ''svc'' False True
               = [GoSend (SlackSender ''https://hooks.example/T0'')
                    (emoji_down @ '' Monitor *svc* is DOWN at Mon, 02 Jan 2006 15:04:05 MST'')]"
    by (simp add: Notify_def example_service_def example_world_def)
  have fail: "example_store (fst (snd ?p)) = Some (LibError ''database is locked'')"
    by (simp add: example_store_def)
  have g: "goroutine_result (example_world 503)
        (GoSend (SlackSender ''https://hooks.example/T0'')
           (emoji_down @ '' Monitor *svc* is DOWN at Mon, 02 Jan 2006 15:04:05 MST''))
       = Some (Errorf ''api request failed with status: 500'')"
    by (simp add: postJSON_def example_world_def fmt_d_500)
  from check_cycle_effects_in_order
         [OF s n performCheck_collapse [of "example_world 503" example_engine example_monitor]]
  have "snd (snd ?p) = LogCheck (fst (snd ?p)) (example_store (fst (snd ?p)))
               # StateUpdate (Name example_monitor) (lastState example_engine (Name example_monitor))
                   (Status (fst (snd ?p)))
               # (case lastState example_engine (Name example_monitor) of
                    None \<Rightarrow> []
                  | Some prior \<Rightarrow>
                      if prior \<noteq> Status (fst (snd ?p))
                      then NotifyCall (Name example_monitor) (Status (fst (snd ?p))) prior
                           # Notify (example_world 503) example_service (Name example_monitor)
                               (Status (fst (snd ?p))) prior
                      else [])"
    by blast
  then have "snd (snd ?p)
       = [LogCheck (fst (snd ?p)) (Some (LibError ''database is locked'')),
          StateUpdate ''svc'' (Some True) False,
          NotifyCall ''svc'' False True,
          GoSend (SlackSender ''https://hooks.example/T0'')
            (emoji_down @ '' Monitor *svc* is DOWN at Mon, 02 Jan 2006 15:04:05 MST'')]"
    by (simp add: nm prior st msg fail)
  with s n fail g show ?thesis by blast
qed

subsection \<open>Stopping\<close>

text \<open>
  C8, as the claim states it, fails: after a single \<^verbatim>\<open>Stop()\<close>, at an arrival where a
  tick is pending and the choice of \<^verbatim>\<open>select\<close> falls on it, the loop runs one more
  check and produces one more result before it returns.
\<close>

theorem stop_not_preferred_counterexample:
  "stopCh example_engine = Open
   \<and> monitor_loop example_monitor [CallStop, tick_arrival, idle_arrival] example_engine [] []
       = Returned (example_engine\<lparr>stopCh := Closed\<rparr>)
           [\<lparr>MonitorName = ''svc'', Timestamp = 1000, Status = True, Latency = 25, Error = []\<rparr>]
           [LogCheck \<lparr>MonitorName = ''svc'', Timestamp = 1000, Status = True, Latency = 25,
                      Error = []\<rparr> (Some (LibError ''database is locked'')),
            StateUpdate ''svc'' (Some True) True]"
proof -
  have o: "stopCh example_engine = Open"
    by (simp add: example_engine_def NewEngine_def)
  have "monitor_loop example_monitor [CallStop, tick_arrival, idle_arrival] example_engine [] []
       = Returned (example_engine\<lparr>stopCh := Closed\<rparr>)
           [\<lparr>MonitorName = ''svc'', Timestamp = 1000, Status = True, Latency = 25, Error = []\<rparr>]
           [LogCheck \<lparr>MonitorName = ''svc'', Timestamp = 1000, Status = True, Latency = 25,
                      Error = []\<rparr> (Some (LibError ''database is locked'')),
            StateUpdate ''svc'' (Some True) True]"
    by (simp add: tick_arrival_def idle_arrival_def Stop_def o select_def example_check)
  with o show ?thesis by blast
qed

text \<open>
  C8, amended. A single \<^verbatim>\<open>Stop()\<close> closes the channel and does not panic. With the
  channel closed, the loop returns, with nothing produced since, at an arrival where
  no tick is pending or where the choice falls on the stop case; at an arrival where
  a tick is pending and the choice falls on the tick it runs one more check and
  arrives again. So after \<^verbatim>\<open>Stop()\<close> the run never panics, the further results are
  as many as the leading arrivals at which a pending tick is chosen, and the loop has
  returned once an arrival is not of that kind. A check neither reads nor changes
  \<^verbatim>\<open>stopCh\<close>: \<^verbatim>\<open>Stop()\<close> does not interrupt a probe.
\<close>

theorem stop_ends_loop_when_select_picks_it:
  "(stopCh e = Open \<longrightarrow>
      Stop e = Inr (e\<lparr>stopCh := Closed\<rparr>)
      \<and> monitor_loop m (CallStop # ss) e rs evs = monitor_loop m ss (e\<lparr>stopCh := Closed\<rparr>) rs evs)
   \<and> (stopCh e = Closed \<and> \<not> tick_pending k \<longrightarrow>
         monitor_loop m (Arrive k # ss) e rs evs = Returned e rs evs)
   \<and> (stopCh e = Closed \<and> tick_pending k \<and> pick k = CaseStop \<longrightarrow>
         monitor_loop m (Arrive k # ss) e rs evs = Returned e rs evs)
   \<and> (stopCh e = Closed \<and> tick_pending k \<and> pick k = CaseTick \<longrightarrow>
         monitor_loop m (Arrive k # ss) e rs evs =
           (case performCheck (tick_world k) e m of
              (e', r, ev) \<Rightarrow> monitor_loop m ss e' (rs @ [r]) (evs @ ev)))
   \<and> (stopCh e = Closed \<and> CallStop \<notin> set ss \<longrightarrow>
         (\<forall>msg. monitor_loop m ss e rs evs \<noteq> Panicked msg)
         \<and> length (results_of (monitor_loop m ss e rs evs))
             = length rs + length (takeWhile tick_wins ss)
         \<and> ((\<exists>s \<in> set ss. \<not> tick_wins s) \<longrightarrow>
              (\<exists>e' rs' evs'. monitor_loop m ss e rs evs = Returned e' rs' evs')))
   \<and> performCheck w (e\<lparr>stopCh := c\<rparr>) m =
       (case performCheck w e m of (e', r, ev) \<Rightarrow> (e'\<lparr>stopCh := c\<rparr>, r, ev))"
proof -
  have 1: "stopCh e = Open \<longrightarrow>
      Stop e = Inr (e\<lparr>stopCh := Closed\<rparr>)
      \<and> monitor_loop m (CallStop # ss) e rs evs = monitor_loop m ss (e\<lparr>stopCh := Closed\<rparr>) rs evs"
    by (simp add: Stop_def)
  have 2: "stopCh e = Closed \<and> \<not> tick_pending k \<longrightarrow>
         monitor_loop m (Arrive k # ss) e rs evs = Returned e rs evs"
    using monitor_loop_closed_stop [of e k m ss rs evs] by simp
  have 3: "stopCh e = Closed \<and> tick_pending k \<and> pick k = CaseStop \<longrightarrow>
         monitor_loop m (Arrive k # ss) e rs evs = Returned e rs evs"
    using monitor_loop_closed_stop [of e k m ss rs evs] by simp
  have 4: "stopCh e = Closed \<and> tick_pending k \<and> pick k = CaseTick \<longrightarrow>
         monitor_loop m (Arrive k # ss) e rs evs =
           (case performCheck (tick_world k) e m of
              (e', r, ev) \<Rightarrow> monitor_loop m ss e' (rs @ [r]) (evs @ ev))"
    using monitor_loop_closed_tick [of e k m ss rs evs] by simp
  have 5: "stopCh e = Closed \<and> CallStop \<notin> set ss \<longrightarrow>
         (\<forall>msg. monitor_loop m ss e rs evs \<noteq> Panicked msg)
         \<and> length (results_of (monitor_loop m ss e rs evs))
             = length rs + length (takeWhile tick_wins ss)
         \<and> ((\<exists>s \<in> set ss. \<not> tick_wins s) \<longrightarrow>
              (\<exists>e' rs' evs'. monitor_loop m ss e rs evs = Returned e' rs' evs'))"
    using monitor_loop_closed_no_panic [of e ss m rs evs]
      monitor_loop_closed_results [of e ss m rs evs]
      monitor_loop_closed_returns [of e ss m rs evs]
    by blast
  from 1 2 3 4 5 performCheck_stopCh_update [where w = w and e = e and c = c and m = m] show ?thesis
    by blast
qed

theorem stop_ends_loop_witness:
  "stopCh example_engine = Open
   \<and> monitor_loop example_monitor [CallStop, idle_arrival, tick_arrival] example_engine [] []
       = Returned (example_engine\<lparr>stopCh := Closed\<rparr>) [] []
   \<and> length (results_of (monitor_loop example_monitor [tick_arrival, tick_arrival, idle_arrival]
                (example_engine\<lparr>stopCh := Closed\<rparr>) [] [])) = 2"
proof -
  let ?e = "example_engine\<lparr>stopCh := Closed\<rparr>"
  let ?idle = "\<lparr>tick_pending = False, pick = CaseTick, tick_world = example_world 200\<rparr>"
  have o: "stopCh example_engine = Open"
    by (simp add: example_engine_def NewEngine_def)
  have c: "stopCh ?e = Closed \<and> \<not> tick_pending ?idle"
    by simp
  have n: "stopCh ?e = Closed \<and> CallStop \<notin> set [tick_arrival, tick_arrival, idle_arrival]"
    by (simp add: tick_arrival_def idle_arrival_def)
  have t: "length (takeWhile tick_wins [tick_arrival, tick_arrival, idle_arrival]) = 2"
    by (simp add: tick_arrival_def idle_arrival_def)
  from stop_ends_loop_when_select_picks_it
         [where e = example_engine and m = example_monitor and ss = "[idle_arrival, tick_arrival]"
            and rs = "[]" and evs = "[]"] o
  have 1: "monitor_loop example_monitor [CallStop, idle_arrival, tick_arrival] example_engine [] []
             = monitor_loop example_monitor [idle_arrival, tick_arrival] ?e [] []"
    by blast
  from stop_ends_loop_when_select_picks_it
         [where e = ?e and m = example_monitor and k = ?idle and ss = "[tick_arrival]"
            and rs = "[]" and evs = "[]"] c
  have 2: "monitor_loop example_monitor [idle_arrival, tick_arrival] ?e [] [] = Returned ?e [] []"
    unfolding idle_arrival_def by blast
  from stop_ends_loop_when_select_picks_it
         [where e = ?e and m = example_monitor and ss = "[tick_arrival, tick_arrival, idle_arrival]"
            and rs = "[]" and evs = "[]"] n
  have 3: "length (results_of (monitor_loop example_monitor [tick_arrival, tick_arrival, idle_arrival]
                ?e [] [])) = length ([]::CheckResult list)
                  + length (takeWhile tick_wins [tick_arrival, tick_arrival, idle_arrival])"
    by blast
  from o 1 2 3 t show ?thesis by simp
qed

end
